theory Spec2Isabelle
  imports Complex_Main "HOL-Library.Sublist"
begin

section \<open>The PDF-to-chunks pipeline of \<^verbatim>\<open>back-end/utils.py\<close>\<close>

text \<open>
  The module has three functions: \<^verbatim>\<open>extract_text_from_pdf\<close>, \<^verbatim>\<open>tokenize_and_chunk\<close>
  and \<^verbatim>\<open>jsonify\<close>. They are embedded below in the order of the source. Python's
  unbounded integers are \<open>int\<close>, a Python \<^verbatim>\<open>str\<close> is a \<open>string\<close>, an exception is a
  value of the type \<open>error\<close> on the left of a sum, and the file system and the standard
  output are a \<open>world\<close> that \<^verbatim>\<open>jsonify\<close> takes and returns.
\<close>

subsection \<open>Exceptions and the libraries the module calls\<close>

text \<open>
  The exceptions that reach the caller: \<^verbatim>\<open>RuntimeError\<close> is raised by
  \<^verbatim>\<open>extract_text_from_pdf\<close> (line 21), \<^verbatim>\<open>ValueError\<close> by the builtin \<^verbatim>\<open>range\<close> on a zero
  step and by the tokenizer, \<^verbatim>\<open>OSError\<close> by the builtin \<^verbatim>\<open>open\<close>. The module defines
  no exception class of its own.
\<close>

datatype error = RuntimeError string | ValueError string | OSError string

text \<open>What a Python call returns: \<^verbatim>\<open>None\<close> or an integer.\<close>

datatype pyval = PyNone | PyInt int

type_synonym token = int

text \<open>
  A \<^verbatim>\<open>tiktoken\<close> encoding object: \<^verbatim>\<open>enc.encode(text)\<close>, which can raise, and
  \<^verbatim>\<open>enc.decode(tokens)\<close>. The library is not part of the repository, so the encoding
  is a parameter.
\<close>

record encoding =
  encode :: "string \<Rightarrow> error + token list"
  decode :: "token list \<Rightarrow> string"

text \<open>
  A page of an opened PDF is what \<^verbatim>\<open>page.extract_text()\<close> does on it: it raises (the
  message on the left), or returns \<^verbatim>\<open>None\<close> or a text.
\<close>

type_synonym page = "string + string option"

text \<open>One object of the JSON array: \<^verbatim>\<open>{"author": ..., "text": ...}\<close>.\<close>

record entry =
  author :: string
  text' :: string

text \<open>
  The environment of a run: \<^verbatim>\<open>tiktoken.get_encoding\<close>, \<^verbatim>\<open>pdfplumber.open\<close> (the pages
  of the document, or the message of the exception it raises), the platform's
  \<^verbatim>\<open>os.path.basename\<close>, and whether the builtin \<^verbatim>\<open>open(path, "w")\<close>, the call of
  \<^verbatim>\<open>json.dump\<close> on an array (a string that the file's encoding refuses) and the builtin
  \<^verbatim>\<open>print\<close> on a line (a character that the console's encoding refuses) raise.
\<close>

record env =
  tiktoken_get_encoding :: "string \<Rightarrow> error + encoding"
  pdfplumber_open :: "string \<Rightarrow> string + page list"
  os_path_basename :: "string \<Rightarrow> string"
  open_error :: "string \<Rightarrow> error option"
  json_dump_error :: "entry list \<Rightarrow> error option"
  print_error :: "string \<Rightarrow> error option"

subsection \<open>Python builtins\<close>

text \<open>
  \<^verbatim>\<open>range(start, stop, step)\<close>: a zero step raises \<^verbatim>\<open>ValueError\<close>; otherwise the range
  has the length CPython computes for it and its \<open>k\<close>-th element is
  \<open>start + k * step\<close>. A range is always finite: with a negative step and
  \<open>start \<le> stop\<close> it is empty.
\<close>

definition range_len :: "int \<Rightarrow> int \<Rightarrow> int \<Rightarrow> nat" where
  "range_len start stop step =
     (if 0 < step then (if start < stop then nat ((stop - start - 1) div step + 1) else 0)
      else (if stop < start then nat ((start - stop - 1) div (- step) + 1) else 0))"

definition py_range :: "int \<Rightarrow> int \<Rightarrow> int \<Rightarrow> error + int list" where
  "py_range start stop step =
     (if step = 0 then Inl (ValueError ''range() arg 3 must not be zero'')
      else Inr (map (\<lambda>k. start + int k * step) [0..<range_len start stop step]))"

text \<open>
  \<^verbatim>\<open>xs[lo:hi]\<close>: a negative bound counts from the end, and both bounds are clamped to
  the list; the slice is empty when the upper bound is not above the lower one.
\<close>

definition slice_index :: "nat \<Rightarrow> int \<Rightarrow> nat" where
  "slice_index n i = (if i < 0 then nat (max 0 (int n + i)) else min n (nat i))"

definition py_slice :: "'a list \<Rightarrow> int \<Rightarrow> int \<Rightarrow> 'a list" where
  "py_slice xs lo hi =
     (let l = slice_index (length xs) lo; h = slice_index (length xs) hi
      in take (h - l) (drop l xs))"

text \<open>\<^verbatim>\<open>sep.join(xs)\<close>.\<close>

fun str_join :: "string \<Rightarrow> string list \<Rightarrow> string" where
  "str_join sep [] = []"
| "str_join sep [x] = x"
| "str_join sep (x # y # ys) = x @ sep @ str_join sep (y # ys)"

text \<open>
  \<^verbatim>\<open>s.replace(old, new)\<close>: every occurrence of \<open>old\<close>, found from the left and without
  overlaps, becomes \<open>new\<close>. With an empty \<open>old\<close>, \<open>new\<close> is put before every character
  and at the end.
\<close>

function replace_from :: "string \<Rightarrow> string \<Rightarrow> string \<Rightarrow> string" where
  "replace_from old new [] = []"
| "replace_from old new (c # cs) =
     (if old \<noteq> [] \<and> prefix old (c # cs)
      then new @ replace_from old new (drop (length old) (c # cs))
      else c # replace_from old new cs)"
  by pat_completeness auto
termination
  by (relation "measure (\<lambda>(old, new, s). length s)") (auto simp: neq_Nil_conv)

definition str_replace :: "string \<Rightarrow> string \<Rightarrow> string \<Rightarrow> string" where
  "str_replace s old new =
     (if old = [] then new @ concat (map (\<lambda>c. c # new) s) else replace_from old new s)"

text \<open>\<^verbatim>\<open>str(n)\<close> for a length, in decimal.\<close>

fun str_nat :: "nat \<Rightarrow> string" where
  "str_nat n =
     (if n < 10 then [''0123456789'' ! n]
      else str_nat (n div 10) @ [''0123456789'' ! (n mod 10)])"

subsection \<open>\<^verbatim>\<open>extract_text_from_pdf\<close> (lines 9 to 23)\<close>

text \<open>
  The loop over the pages appends the text of every page whose text is truthy (neither
  \<^verbatim>\<open>None\<close> nor empty). Any exception inside the \<^verbatim>\<open>try\<close> becomes a \<^verbatim>\<open>RuntimeError\<close>.
\<close>

fun extract_pages :: "page list \<Rightarrow> string list \<Rightarrow> string + string list" where
  "extract_pages [] full_text = Inr full_text"
| "extract_pages (pg # pages) full_text =
     (case pg of
        Inl e \<Rightarrow> Inl e
      | Inr text \<Rightarrow>
          (case text of
             None \<Rightarrow> extract_pages pages full_text
           | Some t \<Rightarrow>
               if t \<noteq> [] then extract_pages pages (full_text @ [t])
               else extract_pages pages full_text))"

definition extract_text_from_pdf :: "env \<Rightarrow> string \<Rightarrow> error + string" where
  "extract_text_from_pdf ev pdf_path =
     (case pdfplumber_open ev pdf_path of
        Inl e \<Rightarrow> Inl (RuntimeError (''Error reading PDF: '' @ e))
      | Inr pages \<Rightarrow>
          (case extract_pages pages [] of
             Inl e \<Rightarrow> Inl (RuntimeError (''Error reading PDF: '' @ e))
           | Inr full_text \<Rightarrow> Inr (str_join [CHR 0x0A] full_text)))"

subsection \<open>\<^verbatim>\<open>tokenize_and_chunk\<close> (lines 28 to 49)\<close>

text \<open>
  The body of the \<^verbatim>\<open>for\<close> loop, over the indices the range yields: the window
  \<^verbatim>\<open>tokens[i:i+chunk_size]\<close> is decoded and appended to \<^verbatim>\<open>chunks\<close>.
\<close>

fun chunk_loop :: "encoding \<Rightarrow> token list \<Rightarrow> int \<Rightarrow> int list \<Rightarrow> string list \<Rightarrow> string list" where
  "chunk_loop enc tokens chunk_size [] chunks = chunks"
| "chunk_loop enc tokens chunk_size (i # is) chunks =
     (let chunk_tokens = py_slice tokens i (i + chunk_size)
      in chunk_loop enc tokens chunk_size is (chunks @ [decode enc chunk_tokens]))"

text \<open>
  The function reads the encoding, encodes the whole text, and only then builds the
  range of window starts from \<open>chunk_size - overlap\<close>. It checks neither parameter.
\<close>

definition tokenize_and_chunk :: "env \<Rightarrow> string \<Rightarrow> int \<Rightarrow> int \<Rightarrow> string \<Rightarrow> error + string list" where
  "tokenize_and_chunk ev text chunk_size overlap model =
     (case tiktoken_get_encoding ev model of
        Inl e \<Rightarrow> Inl e
      | Inr enc \<Rightarrow>
          (case encode enc text of
             Inl e \<Rightarrow> Inl e
           | Inr tokens \<Rightarrow>
               (case py_range 0 (int (length tokens)) (chunk_size - overlap) of
                  Inl e \<Rightarrow> Inl e
                | Inr starts \<Rightarrow> Inr (chunk_loop enc tokens chunk_size starts []))))"

subsection \<open>\<^verbatim>\<open>jsonify\<close> (lines 54 to 89)\<close>

text \<open>
  What a file holds: the array \<^verbatim>\<open>json.dump\<close> was given, when the call has ended (the
  library's serialisation to text is not modelled), or an unfinished text of that
  array, when the call has raised while it was writing.
\<close>

datatype file_content = Complete "entry list" | Incomplete "entry list"

text \<open>The world \<^verbatim>\<open>jsonify\<close> acts on: the files and the lines printed.\<close>

record world =
  files :: "string \<rightharpoonup> file_content"
  stdout :: "string list"

text \<open>The inner loop: one entry per chunk, appended to \<^verbatim>\<open>data\<close>.\<close>

fun append_chunks :: "string \<Rightarrow> string list \<Rightarrow> entry list \<Rightarrow> entry list" where
  "append_chunks name [] data = data"
| "append_chunks name (chunk # chunks) data =
     append_chunks name chunks (data @ [\<lparr>author = name, text' = chunk\<rparr>])"

text \<open>Line 68: \<^verbatim>\<open>os.path.basename(pdf_path).replace(".pdf", "")\<close>.\<close>

definition author_name :: "env \<Rightarrow> string \<Rightarrow> string" where
  "author_name ev pdf_path = str_replace (os_path_basename ev pdf_path) ''.pdf'' ''''"

text \<open>
  The outer loop over \<^verbatim>\<open>paths\<close>. An exception of the extraction or of the chunking
  leaves the loop and the function. \<^verbatim>\<open>tokenize_and_chunk\<close> is called with its default
  model.
\<close>

fun jsonify_loop :: "env \<Rightarrow> string list \<Rightarrow> int \<Rightarrow> int \<Rightarrow> entry list \<Rightarrow> error + entry list" where
  "jsonify_loop ev [] chunk_size overlap data = Inr data"
| "jsonify_loop ev (pdf_path # paths) chunk_size overlap data =
     (let author = author_name ev pdf_path
      in case extract_text_from_pdf ev pdf_path of
           Inl e \<Rightarrow> Inl e
         | Inr full_text \<Rightarrow>
             (case tokenize_and_chunk ev full_text chunk_size overlap ''cl100k_base'' of
                Inl e \<Rightarrow> Inl e
              | Inr chunks \<Rightarrow>
                  jsonify_loop ev paths chunk_size overlap
                    (append_chunks author chunks data)))"

text \<open>The directory of line 84 and the path built from it by concatenation.\<close>

definition backslash :: char where
  "backslash = CHR 0x5C"

definition output_dir :: string where
  "output_dir =
     ''C:'' @ [backslash] @ ''Users'' @ [backslash] @ ''adamh'' @ [backslash] @ ''Desktop''
       @ [backslash] @ ''fit_bot'' @ [backslash] @ ''back-end''"

definition output_path_of :: "string \<Rightarrow> string" where
  "output_path_of output_filename = output_dir @ [backslash] @ output_filename"

text \<open>The line printed at the end; it starts with the three bytes of U+2705.\<close>

definition saved_message :: "string \<Rightarrow> nat \<Rightarrow> string" where
  "saved_message output_path n =
     [CHR 0xE2, CHR 0x9C, CHR 0x85] @ '' JSON saved at '' @ output_path @ '' with ''
       @ str_nat n @ '' chunks.''"

text \<open>
  The function: the file is opened only after the loop has ended. An exception of
  \<^verbatim>\<open>json.dump\<close> leaves the opened file unfinished; an exception of \<^verbatim>\<open>print\<close> comes when
  the file is written and closed. The function has no \<^verbatim>\<open>return\<close> statement, so a call that
  ends normally returns \<^verbatim>\<open>None\<close>.
\<close>

definition jsonify :: "env \<Rightarrow> world \<Rightarrow> string list \<Rightarrow> int \<Rightarrow> int \<Rightarrow> string \<Rightarrow> world \<times> (error + pyval)" where
  "jsonify ev w paths chunk_size overlap output_filename =
     (case jsonify_loop ev paths chunk_size overlap [] of
        Inl e \<Rightarrow> (w, Inl e)
      | Inr data \<Rightarrow>
          (let output_path = output_path_of output_filename
           in case open_error ev output_path of
                Some e \<Rightarrow> (w, Inl e)
              | None \<Rightarrow>
                  (case json_dump_error ev data of
                     Some e \<Rightarrow>
                       (w\<lparr>files := (files w)(output_path \<mapsto> Incomplete data)\<rparr>, Inl e)
                   | None \<Rightarrow>
                       (let written = w\<lparr>files := (files w)(output_path \<mapsto> Complete data)\<rparr>;
                            line = saved_message output_path (length data)
                        in case print_error ev line of
                             Some e \<Rightarrow> (written, Inl e)
                           | None \<Rightarrow>
                               (written\<lparr>stdout := stdout w @ [line]\<rparr>, Inr PyNone)))))"

subsection \<open>Notions the statements use\<close>

text \<open>
  The window of the \<open>k\<close>-th iteration of the loop of \<^verbatim>\<open>tokenize_and_chunk\<close>: the value
  of \<^verbatim>\<open>chunk_tokens\<close> when \<open>i\<close> is \<open>k * (chunk_size - overlap)\<close>.
\<close>

definition window :: "token list \<Rightarrow> int \<Rightarrow> int \<Rightarrow> nat \<Rightarrow> token list" where
  "window tokens chunk_size overlap k =
     py_slice tokens (int k * (chunk_size - overlap)) (int k * (chunk_size - overlap) + chunk_size)"

text \<open>
  The number of chunks as the specification gives it: none for no token, else
  \<open>ceil((N - overlap) / (window_size - overlap))\<close>.
\<close>

definition spec_chunk_count :: "nat \<Rightarrow> int \<Rightarrow> int \<Rightarrow> int" where
  "spec_chunk_count n window_size overlap =
     (if n = 0 then 0
      else \<lceil>real_of_int (int n - overlap) / real_of_int (window_size - overlap)\<rceil>)"

text \<open>The chunks of one document: what one round of the loop of \<^verbatim>\<open>jsonify\<close> computes.\<close>

definition document_chunks :: "env \<Rightarrow> int \<Rightarrow> int \<Rightarrow> string \<Rightarrow> error + string list" where
  "document_chunks ev chunk_size overlap pdf_path =
     (case extract_text_from_pdf ev pdf_path of
        Inl e \<Rightarrow> Inl e
      | Inr full_text \<Rightarrow> tokenize_and_chunk ev full_text chunk_size overlap ''cl100k_base'')"

text \<open>The chunks of a document that is read and chunked, and none otherwise.\<close>

definition chunks_of :: "env \<Rightarrow> int \<Rightarrow> int \<Rightarrow> string \<Rightarrow> string list" where
  "chunks_of ev chunk_size overlap pdf_path =
     (case document_chunks ev chunk_size overlap pdf_path of Inl e \<Rightarrow> [] | Inr chunks \<Rightarrow> chunks)"

text \<open>
  The label as the specification gives it: the final segment of the path with its
  extension (the last dot and what follows it, unless nothing precedes that dot)
  removed.
\<close>

definition remove_extension :: "string \<Rightarrow> string" where
  "remove_extension name =
     (let stem = rev (drop 1 (dropWhile (\<lambda>c. c \<noteq> CHR ''.'') (rev name)))
      in if stem = [] then name else stem)"

definition spec_label :: "env \<Rightarrow> string \<Rightarrow> string" where
  "spec_label ev pdf_path = remove_extension (os_path_basename ev pdf_path)"

text \<open>
  The directory of a Windows path: what stands before its last separator, a backslash
  or a slash.
\<close>

definition is_separator :: "char \<Rightarrow> bool" where
  "is_separator c = (c = backslash \<or> c = CHR ''/'')"

definition directory_of :: "string \<Rightarrow> string" where
  "directory_of p = rev (drop 1 (dropWhile (\<lambda>c. \<not> is_separator c) (rev p)))"

subsection \<open>A sample environment\<close>

text \<open>
  An encoding with one token for each byte; like \<^verbatim>\<open>tiktoken\<close>, it refuses a text that is
  a special token.
\<close>

definition sample_encoding :: encoding where
  "sample_encoding =
     \<lparr>encode = (\<lambda>s. if s = ''<|endoftext|>'' then Inl (ValueError ''disallowed special token'')
                     else Inr (map of_char s)),
      decode = map char_of\<rparr>"






text \<open>\<^verbatim>\<open>posixpath.basename\<close>: what follows the last slash.\<close>

definition posix_basename :: "string \<Rightarrow> string" where
  "posix_basename p = rev (takeWhile (\<lambda>c. c \<noteq> CHR ''/'') (rev p))"

text \<open>
  Four documents can be read: one with the pages \<open>abcd\<close>, an image and \<open>ef\<close>, one
  whose only page has no text, and two of one short page each. Opening the output file,
  writing it and printing do not fail.
\<close>

definition sample_env :: env where
  "sample_env =
     \<lparr>tiktoken_get_encoding =
        (\<lambda>m. if m = ''cl100k_base'' then Inr sample_encoding
             else Inl (ValueError ''Unknown encoding'')),
      pdfplumber_open =
        (\<lambda>p. if p = ''books/guide.pdf'' then Inr [Inr (Some ''abcd''), Inr None, Inr (Some ''ef'')]
             else if p = ''books/empty.pdf'' then Inr [Inr (Some [])]
             else if p = ''books/SCAN.PDF'' then Inr [Inr (Some ''xy'')]
             else if p = ''books/my.pdf_notes.pdf'' then Inr [Inr (Some ''z'')]
             else Inl ''No such file''),
      os_path_basename = posix_basename,
      open_error = (\<lambda>p. None),
      json_dump_error = (\<lambda>data. None),
      print_error = (\<lambda>line. None)\<rparr>"


definition empty_world :: world where
  "empty_world = \<lparr>files = Map.empty, stdout = []\<rparr>"

section \<open>Properties of the builtins and of the loops\<close>

lemma ceil_div_shift:
  fixes n s :: int
  assumes "0 < s"
  shows "(n - 1) div s + 1 = - ((- n) div s)"
proof (cases "n mod s = 0")
  case True
  have "n - 1 = s * (n div s - 1) + (s - 1)"
    using True by (simp add: algebra_simps) (metis True add.right_neutral mult_div_mod_eq)
  then have "(n - 1) div s = n div s - 1"
    using assms by (intro int_div_pos_eq [where r = "s - 1"]) simp_all
  then show ?thesis using True assms by (simp add: zdiv_zminus1_eq_if)
next
  case False
  have "0 \<le> n mod s" "n mod s < s" using assms by simp_all
  with False have r: "0 \<le> n mod s - 1" "n mod s - 1 < s" by linarith+
  have "n - 1 = s * (n div s) + (n mod s - 1)" by simp
  then have "(n - 1) div s = n div s"
    using r by (intro int_div_pos_eq [where r = "n mod s - 1"]) simp_all
  then show ?thesis using False assms by (simp add: zdiv_zminus1_eq_if)
qed

lemma range_len_ceiling:
  assumes "0 < s"
  shows "int (range_len 0 (int n) s) = \<lceil>real n / real_of_int s\<rceil>"
proof -
  have c: "\<lceil>real n / real_of_int s\<rceil> = - ((- int n) div s)"
    using ceiling_divide_eq_div [of "int n" s] by simp
  show ?thesis
  proof (cases "n = 0")
    case True
    then show ?thesis using assms by (simp add: range_len_def)
  next
    case False
    then have "0 \<le> (int n - 1) div s"
      using assms by (simp add: pos_imp_zdiv_nonneg_iff)
    then show ?thesis
      using False assms c ceil_div_shift [OF assms, of "int n"] by (simp add: range_len_def)
  qed
qed

text \<open>An index of the range is below the stop.\<close>

lemma range_len_bound:
  assumes "0 < s" "k < range_len 0 (int n) s"
  shows "int k * s < int n"
proof -
  have n: "0 < n" using assms by (auto simp: range_len_def split: if_splits)
  then have "0 \<le> (int n - 1) div s"
    using assms by (simp add: pos_imp_zdiv_nonneg_iff)
  then have "int k \<le> (int n - 1) div s"
    using assms n by (simp add: range_len_def)
  then have "int k * s \<le> ((int n - 1) div s) * s"
    using assms by (simp add: mult_right_mono)
  also have "\<dots> \<le> int n - 1"
    using assms div_mult_mod_eq [of "int n - 1" s] pos_mod_sign [of s "int n - 1"] by linarith
  finally show ?thesis by simp
qed

lemma chunk_loop_map:
  "chunk_loop enc toks cs starts acc =
     acc @ map (\<lambda>i. decode enc (py_slice toks i (i + cs))) starts"
  by (induction starts arbitrary: acc) simp_all

lemma py_slice_window:
  assumes "0 \<le> i" "0 \<le> w"
  shows "py_slice xs i (i + w) = take (nat w) (drop (nat i) xs)"
  using assms by (auto simp: py_slice_def slice_index_def Let_def min_def nat_add_distrib)

lemma tokenize_and_chunk_windows:
  assumes "tiktoken_get_encoding ev model = Inr enc" "encode enc doc = Inr toks" "cs \<noteq> ov"
  shows "tokenize_and_chunk ev doc cs ov model =
           Inr (map (\<lambda>k. decode enc (window toks cs ov k))
                  [0..<range_len 0 (int (length toks)) (cs - ov)])"
  using assms
  by (simp add: tokenize_and_chunk_def py_range_def chunk_loop_map window_def comp_def)

lemma length_window:
  assumes "0 < w" "0 \<le> ov" "ov < w"
  shows "int (length (window toks w ov k)) = max 0 (min w (int (length toks) - int k * (w - ov)))"
proof -
  define K where "K = nat (int k * (w - ov))"
  define W where "W = nat w"
  have K: "int K = int k * (w - ov)" and W: "int W = w"
    using assms by (simp_all add: K_def W_def)
  have "window toks w ov k = take W (drop K toks)"
    using assms K by (simp add: window_def py_slice_window K_def W_def)
  then have "int (length (window toks w ov k)) = int (min W (length toks - K))"
    by (simp add: min.commute)
  also have "\<dots> = max 0 (min (int W) (int (length toks) - int K))"
    by arith
  finally show ?thesis by (simp add: K W)
qed

lemma chunks_nth:
  assumes "tiktoken_get_encoding ev model = Inr enc" "encode enc doc = Inr toks" "cs \<noteq> ov"
    and "tokenize_and_chunk ev doc cs ov model = Inr chunks"
  shows "length chunks = range_len 0 (int (length toks)) (cs - ov)"
    and "k < length chunks \<Longrightarrow> chunks ! k = decode enc (window toks cs ov k)"
  using assms tokenize_and_chunk_windows [of ev model enc doc toks cs ov] by auto

lemma window_take_drop:
  assumes "0 < w" "0 \<le> ov" "ov < w"
  shows "window toks w ov k = take (nat w) (drop (k * nat (w - ov)) toks)"
proof -
  have "nat (int k * (w - ov)) = k * nat (w - ov)"
    using assms by (simp add: nat_mult_distrib)
  then show ?thesis
    using assms by (simp add: window_def py_slice_window)
qed

lemma sample_get_encoding:
  "tiktoken_get_encoding sample_env ''cl100k_base'' = Inr sample_encoding"
  by (simp add: sample_env_def)

lemma sample_encode_abcde: "encode sample_encoding ''abcde'' = Inr [97, 98, 99, 100, 101]"
  by (simp add: sample_encoding_def)

lemma sample_chunks_abcde:
  "tokenize_and_chunk sample_env ''abcde'' 4 2 ''cl100k_base'' = Inr [''abcd'', ''cde'', ''e'']"
  by code_simp

lemma append_chunks_map:
  "append_chunks name chunks data = data @ map (\<lambda>c. \<lparr>author = name, text' = c\<rparr>) chunks"
  by (induction chunks arbitrary: data) simp_all

lemma jsonify_loop_step:
  "jsonify_loop ev (p # ps) cs ov data =
     (case document_chunks ev cs ov p of
        Inl e \<Rightarrow> Inl e
      | Inr chunks \<Rightarrow>
          jsonify_loop ev ps cs ov
            (data @ map (\<lambda>c. \<lparr>author = author_name ev p, text' = c\<rparr>) chunks))"
  by (simp add: document_chunks_def append_chunks_map split: sum.split)

lemma jsonify_loop_success:
  assumes "jsonify_loop ev ps cs ov data = Inr data'"
  shows "(\<forall>p\<in>set ps. \<exists>chunks. document_chunks ev cs ov p = Inr chunks) \<and>
         data' = data @ concat (map (\<lambda>p. map (\<lambda>c. \<lparr>author = author_name ev p, text' = c\<rparr>)
                                        (chunks_of ev cs ov p)) ps)"
  using assms
proof (induction ps arbitrary: data)
  case Nil
  then show ?case by simp
next
  case (Cons p ps)
  from Cons.prems obtain chunks where c: "document_chunks ev cs ov p = Inr chunks"
    and r: "jsonify_loop ev ps cs ov
              (data @ map (\<lambda>c. \<lparr>author = author_name ev p, text' = c\<rparr>) chunks) = Inr data'"
    by (auto simp: jsonify_loop_step simp del: jsonify_loop.simps split: sum.splits)
  from Cons.IH [OF r] c show ?case by (simp add: chunks_of_def)
qed

lemma jsonify_loop_first_error:
  assumes "\<forall>q\<in>set ps1. \<exists>chunks. document_chunks ev cs ov q = Inr chunks"
    and "document_chunks ev cs ov p = Inl e"
  shows "jsonify_loop ev (ps1 @ p # ps2) cs ov data = Inl e"
  using assms
proof (induction ps1 arbitrary: data)
  case Nil
  then show ?case by (simp add: jsonify_loop_step del: jsonify_loop.simps)
next
  case (Cons q qs)
  then obtain chunks where "document_chunks ev cs ov q = Inr chunks" by auto
  with Cons show ?case by (simp add: jsonify_loop_step del: jsonify_loop.simps)
qed

lemma jsonify_success:
  assumes "jsonify ev w paths cs ov fn = (w', Inr r)"
  shows "\<exists>data. jsonify_loop ev paths cs ov [] = Inr data \<and> r = PyNone \<and>
           w' = w\<lparr>files := (files w)(output_path_of fn \<mapsto> Complete data),
                  stdout := stdout w @ [saved_message (output_path_of fn) (length data)]\<rparr>"
  using assms by (auto simp: jsonify_def Let_def split: sum.splits option.splits)

text \<open>
  After the file is opened: an exception of \<^verbatim>\<open>json.dump\<close> leaves the file unfinished, and an
  exception of \<^verbatim>\<open>print\<close> leaves it written; both reach the caller.
\<close>

lemma jsonify_dump_failure:
  assumes "jsonify_loop ev paths cs ov [] = Inr data" "open_error ev (output_path_of fn) = None"
    and "json_dump_error ev data = Some e"
  shows "jsonify ev w paths cs ov fn =
           (w\<lparr>files := (files w)(output_path_of fn \<mapsto> Incomplete data)\<rparr>, Inl e)"
  using assms by (simp add: jsonify_def)

lemma jsonify_print_failure:
  assumes "jsonify_loop ev paths cs ov [] = Inr data" "open_error ev (output_path_of fn) = None"
    and "json_dump_error ev data = None"
    and "print_error ev (saved_message (output_path_of fn) (length data)) = Some e"
  shows "jsonify ev w paths cs ov fn =
           (w\<lparr>files := (files w)(output_path_of fn \<mapsto> Complete data)\<rparr>, Inl e)"
  using assms by (simp add: jsonify_def Let_def)

lemma prefix_pdf_append:
  assumes "prefix ''.pdf'' (s @ ''.pdf'')" "s \<noteq> []"
  shows "prefix ''.pdf'' s"
proof (cases s)
  case Nil
  with assms show ?thesis by simp
next
  case s1: (Cons a s1)
  show ?thesis
  proof (cases s1)
    case Nil
    with assms s1 show ?thesis by simp
  next
    case s2: (Cons b s2)
    show ?thesis
    proof (cases s2)
      case Nil
      with assms s1 s2 show ?thesis by simp
    next
      case s3: (Cons c s3)
      show ?thesis
      proof (cases s3)
        case Nil
        with assms s1 s2 s3 show ?thesis by simp
      next
        case (Cons d s4)
        with assms s1 s2 s3 show ?thesis by simp
      qed
    qed
  qed
qed

lemma replace_pdf_stem:
  assumes "\<not> sublist ''.pdf'' stem"
  shows "replace_from ''.pdf'' [] (stem @ ''.pdf'') = stem"
  using assms
proof (induction stem)
  case Nil
  then show ?case by simp
next
  case (Cons c cs)
  then have np: "\<not> prefix ''.pdf'' (c # cs)" and ns: "\<not> sublist ''.pdf'' cs"
    by (simp_all add: sublist_Cons_right)
  let ?old = "''.pdf''"
  have "\<not> prefix ?old ((c # cs) @ ?old)"
    using np prefix_pdf_append [of "c # cs"] by blast
  then have n: "\<not> (?old \<noteq> [] \<and> prefix ?old (c # (cs @ ?old)))"
    by (simp only: append_Cons) blast
  have "replace_from ?old [] (c # (cs @ ?old)) =
          (if ?old \<noteq> [] \<and> prefix ?old (c # (cs @ ?old))
           then [] @ replace_from ?old [] (drop (length ?old) (c # (cs @ ?old)))
           else c # replace_from ?old [] (cs @ ?old))"
    by (rule replace_from.simps(2))
  also have "\<dots> = c # replace_from ?old [] (cs @ ?old)"
    using n by (rule if_not_P)
  also have "\<dots> = c # cs"
    using Cons.IH [OF ns] by (simp only:)
  finally show ?case by (simp only: append_Cons)
qed

lemma remove_extension_pdf:
  "stem \<noteq> [] \<Longrightarrow> remove_extension (stem @ ''.pdf'') = stem"
  by (simp add: remove_extension_def)

text \<open>
  Where line 68 does strip the extension: a final segment that is a non-empty stem
  without \<^verbatim>\<open>.pdf\<close> in it, followed by \<^verbatim>\<open>.pdf\<close>.
\<close>

lemma author_name_plain_pdf:
  assumes "os_path_basename ev p = stem @ ''.pdf''" "stem \<noteq> []" "\<not> sublist ''.pdf'' stem"
  shows "author_name ev p = stem" and "spec_label ev p = stem"
  using assms replace_pdf_stem [of stem] remove_extension_pdf [of stem]
  by (simp_all add: author_name_def str_replace_def spec_label_def)

text \<open>The entries of a call that ends normally, in the order of the paths and the chunks.\<close>

lemma jsonify_entries:
  assumes "jsonify ev w paths cs ov fn = (w', Inr r)"
  shows "files w' (output_path_of fn) =
           Some (Complete (concat (map (\<lambda>p. map (\<lambda>c. \<lparr>author = author_name ev p, text' = c\<rparr>)
                                               (chunks_of ev cs ov p)) paths)))"
proof -
  from jsonify_success [OF assms] obtain data where
    l: "jsonify_loop ev paths cs ov [] = Inr data" and
    w': "w' = w\<lparr>files := (files w)(output_path_of fn \<mapsto> Complete data),
                  stdout := stdout w @ [saved_message (output_path_of fn) (length data)]\<rparr>"
    by blast
  have "files w' (output_path_of fn) = Some (Complete data)" using w' by simp
  then show ?thesis using jsonify_loop_success [OF l] by simp
qed

lemma directory_of_plain:
  assumes "\<forall>c\<in>set fn. \<not> is_separator c"
  shows "directory_of (d @ [backslash] @ fn) = d"
proof -
  have "dropWhile (\<lambda>c. \<not> is_separator c) (rev fn @ backslash # rev d) =
          dropWhile (\<lambda>c. \<not> is_separator c) (backslash # rev d)"
    by (rule dropWhile_append2) (use assms in simp)
  also have "\<dots> = backslash # rev d"
    by (simp add: is_separator_def)
  finally show ?thesis by (simp add: directory_of_def)
qed

lemma sample_guide_chunks:
  "document_chunks sample_env 4 1 ''books/guide.pdf'' =
     Inr [''abcd'', [CHR ''d'', CHR 0x0A, CHR ''e'', CHR ''f''], ''f'']"
  by code_simp

section \<open>The chunker\<close>

text \<open>
  C1 (as the code has it). For \<open>window_size > 0\<close>, \<open>0 \<le> overlap < window_size\<close> and a
  text that encodes to \<open>N\<close> tokens, \<^verbatim>\<open>tokenize_and_chunk\<close> returns exactly
  \<open>ceil(N / (window_size - overlap))\<close> chunks, which is none when \<open>N = 0\<close>: one chunk for
  every multiple of the stride below \<open>N\<close>.
\<close>

theorem chunk_count:
  assumes "0 < w" "0 \<le> ov" "ov < w"
    and "tiktoken_get_encoding ev model = Inr enc" "encode enc doc = Inr toks"
  shows "\<exists>chunks. tokenize_and_chunk ev doc w ov model = Inr chunks \<and>
           int (length chunks) = \<lceil>real (length toks) / real_of_int (w - ov)\<rceil>"
  using assms tokenize_and_chunk_windows [of ev model enc doc toks w ov]
  by (simp add: range_len_ceiling)

theorem chunk_count_witness:
  "\<exists>chunks. tokenize_and_chunk sample_env ''abcd'' 4 1 ''cl100k_base'' = Inr chunks \<and>
     int (length chunks) = 2"
proof -
  have e: "tiktoken_get_encoding sample_env ''cl100k_base'' = Inr sample_encoding"
    by (simp add: sample_env_def)
  have t: "encode sample_encoding ''abcd'' = Inr [97, 98, 99, 100]"
    by (simp add: sample_encoding_def)
  have "\<lceil>real (length [97, 98, 99, 100 :: int]) / real_of_int (4 - 1)\<rceil> = 2"
    by (simp add: ceiling_eq_iff)
  then show ?thesis
    using chunk_count [of 4 1 sample_env "''cl100k_base''" sample_encoding "''abcd''", OF _ _ _ e t]
    by simp
qed

text \<open>
  The count of the specification fails on a text of four tokens with a window of four
  and an overlap of one: the starts are 0 and 3, so there are two chunks, where
  \<open>ceil((4 - 1) / (4 - 1))\<close> is one.
\<close>

theorem chunk_count_counterexample:
  "tokenize_and_chunk sample_env ''abcd'' 4 1 ''cl100k_base'' = Inr [''abcd'', ''d''] \<and>
   encode sample_encoding ''abcd'' = Inr [97, 98, 99, 100] \<and>
   spec_chunk_count (length [97, 98, 99, 100 :: int]) 4 1 = 1 \<and>
   int (length [''abcd'', ''d'']) \<noteq> spec_chunk_count (length [97, 98, 99, 100 :: int]) 4 1"
proof -
  have "tokenize_and_chunk sample_env ''abcd'' 4 1 ''cl100k_base'' = Inr [''abcd'', ''d'']"
    by code_simp
  moreover have "encode sample_encoding ''abcd'' = Inr [97, 98, 99, 100]"
    by (simp add: sample_encoding_def)
  moreover have "spec_chunk_count (length [97, 98, 99, 100 :: int]) 4 1 = 1"
    by (simp add: spec_chunk_count_def)
  ultimately show ?thesis by simp
qed

text \<open>
  C2 (as the code has it). The function checks no parameter and raises no error of
  configuration. Once the encoding is there, a failure of \<^verbatim>\<open>enc.encode\<close> is the failure of
  the call, whatever the parameters; when the text is encoded the call fails exactly when
  \<open>overlap = window_size\<close>, with the \<^verbatim>\<open>ValueError\<close> of \<^verbatim>\<open>range\<close> on a zero step, raised after
  the tokenization; with any other parameters it returns a list of chunks.
\<close>

theorem chunk_failure:
  assumes "tiktoken_get_encoding ev model = Inr enc"
  shows "case encode enc doc of
           Inl e \<Rightarrow> tokenize_and_chunk ev doc w ov model = Inl e
         | Inr toks \<Rightarrow>
             if ov = w
             then tokenize_and_chunk ev doc w ov model =
                    Inl (ValueError ''range() arg 3 must not be zero'')
             else \<exists>chunks. tokenize_and_chunk ev doc w ov model = Inr chunks"
  using assms by (simp add: tokenize_and_chunk_def py_range_def split: sum.split)

theorem chunk_failure_witness:
  "tokenize_and_chunk sample_env ''<|endoftext|>'' 0 (- 1) ''cl100k_base'' =
     Inl (ValueError ''disallowed special token'') \<and>
   tokenize_and_chunk sample_env ''abcde'' 4 4 ''cl100k_base'' =
     Inl (ValueError ''range() arg 3 must not be zero'') \<and>
   (\<exists>chunks. tokenize_and_chunk sample_env ''abcde'' 0 (- 1) ''cl100k_base'' = Inr chunks)"
proof -
  have e: "encode sample_encoding ''<|endoftext|>'' = Inl (ValueError ''disallowed special token'')"
    by (simp add: sample_encoding_def)
  show ?thesis
    using chunk_failure [OF sample_get_encoding, of "''<|endoftext|>''" 0 "- 1"]
      chunk_failure [OF sample_get_encoding, of "''abcde''" 4 4]
      chunk_failure [OF sample_get_encoding, of "''abcde''" 0 "- 1"]
    by (simp add: e sample_encode_abcde)
qed

text \<open>
  A negative overlap, a window size of zero and an overlap above the window size all
  return normally, and with \<open>overlap = window_size\<close> the error of the tokenizer is the one
  raised: the text is tokenized first.
\<close>

theorem chunk_failure_counterexample:
  "tokenize_and_chunk sample_env ''abcd'' 2 (- 1) ''cl100k_base'' = Inr [''ab'', ''d''] \<and>
   tokenize_and_chunk sample_env ''ab'' 0 (- 1) ''cl100k_base'' = Inr ['''', ''''] \<and>
   tokenize_and_chunk sample_env ''abc'' 2 3 ''cl100k_base'' = Inr [] \<and>
   tokenize_and_chunk sample_env ''<|endoftext|>'' 2 2 ''cl100k_base'' =
     Inl (ValueError ''disallowed special token'')"
proof -
  have "tokenize_and_chunk sample_env ''abcd'' 2 (- 1) ''cl100k_base'' = Inr [''ab'', ''d'']"
    by code_simp
  moreover have "tokenize_and_chunk sample_env ''ab'' 0 (- 1) ''cl100k_base'' = Inr ['''', '''']"
    by code_simp
  moreover have "tokenize_and_chunk sample_env ''abc'' 2 3 ''cl100k_base'' = Inr []"
    by code_simp
  moreover have "tokenize_and_chunk sample_env ''<|endoftext|>'' 2 2 ''cl100k_base'' =
     Inl (ValueError ''disallowed special token'')"
    by code_simp
  ultimately show ?thesis by simp
qed

text \<open>
  C3 (as the code has it). Under a valid configuration the window of the \<open>k\<close>-th chunk has
  exactly \<open>min(window_size, N - k * stride)\<close> tokens and is not empty: a chunk whose window
  ends within the text has \<open>window_size\<close> tokens, and every later one is shorter. When
  \<open>overlap \<le> 1\<close> every chunk but the last has \<open>window_size\<close> tokens.
\<close>

theorem window_lengths:
  assumes "0 < w" "0 \<le> ov" "ov < w"
    and "tiktoken_get_encoding ev model = Inr enc" "encode enc doc = Inr toks"
  shows "\<exists>chunks. tokenize_and_chunk ev doc w ov model = Inr chunks \<and>
           (\<forall>k<length chunks.
              chunks ! k = decode enc (window toks w ov k) \<and>
              int (length (window toks w ov k)) = min w (int (length toks) - int k * (w - ov)) \<and>
              0 < length (window toks w ov k)) \<and>
           (ov \<le> 1 \<longrightarrow>
              (\<forall>k. Suc k < length chunks \<longrightarrow> int (length (window toks w ov k)) = w))"
proof -
  have ne: "w \<noteq> ov" and s: "0 < w - ov" using assms by simp_all
  obtain chunks where c: "tokenize_and_chunk ev doc w ov model = Inr chunks"
    using tokenize_and_chunk_windows [OF assms(4,5) ne] by simp
  note n = chunks_nth [OF assms(4,5) ne c]
  have in_range: "int k * (w - ov) < int (length toks)" if "k < length chunks" for k
    using that n(1) range_len_bound [OF s] by simp
  have a: "chunks ! k = decode enc (window toks w ov k) \<and>
           int (length (window toks w ov k)) = min w (int (length toks) - int k * (w - ov)) \<and>
           0 < length (window toks w ov k)" if "k < length chunks" for k
  proof -
    have l: "int (length (window toks w ov k)) = min w (int (length toks) - int k * (w - ov))"
      using in_range [OF that] assms(1) length_window [OF assms(1-3), of toks k] by simp
    have "0 < min w (int (length toks) - int k * (w - ov))"
      using in_range [OF that] assms(1) by simp
    with l have "0 < length (window toks w ov k)" by linarith
    with l show ?thesis using n(2) [OF that] by simp
  qed
  have b: "int (length (window toks w ov k)) = w" if "ov \<le> 1" "Suc k < length chunks" for k
  proof -
    have "int (Suc k) * (w - ov) < int (length toks)" using in_range [OF that(2)] .
    then have "int k * (w - ov) + (w - ov) < int (length toks)" by (simp add: algebra_simps)
    then have "w \<le> int (length toks) - int k * (w - ov)" using that(1) by linarith
    moreover have "k < length chunks" using that(2) by simp
    ultimately show ?thesis using a [of k] by simp
  qed
  show ?thesis using c a b by blast
qed

theorem window_lengths_witness:
  "\<exists>chunks. tokenize_and_chunk sample_env ''abcde'' 4 2 ''cl100k_base'' = Inr chunks \<and>
     chunks ! 1 = decode sample_encoding (window [97, 98, 99, 100, 101] 4 2 1) \<and>
     int (length (window [97, 98, 99, 100, 101] 4 2 1)) = 3"
proof -
  obtain chunks where c: "tokenize_and_chunk sample_env ''abcde'' 4 2 ''cl100k_base'' = Inr chunks"
    and a: "\<forall>k<length chunks.
              chunks ! k = decode sample_encoding (window [97, 98, 99, 100, 101] 4 2 k) \<and>
              int (length (window [97, 98, 99, 100, 101] 4 2 k)) =
                min 4 (int (length [97, 98, 99, 100, 101 :: int]) - int k * (4 - 2)) \<and>
              0 < length (window [97, 98, 99, 100, 101] 4 2 k)"
    using window_lengths [of 4 2 sample_env "''cl100k_base''" sample_encoding "''abcde''",
        OF _ _ _ sample_get_encoding sample_encode_abcde]
    by auto
  have "chunks = [''abcd'', ''cde'', ''e'']" using c sample_chunks_abcde by auto
  then have "length chunks = 3" by simp
  then have "chunks ! 1 = decode sample_encoding (window [97, 98, 99, 100, 101] 4 2 1) \<and>
     int (length (window [97, 98, 99, 100, 101] 4 2 1)) = 3"
    using a by simp
  then show ?thesis using c by simp
qed

text \<open>
  With five tokens, a window of four and an overlap of two, the starts are 0, 2 and 4:
  the second of the three chunks has three tokens.
\<close>

theorem window_lengths_counterexample:
  "tokenize_and_chunk sample_env ''abcde'' 4 2 ''cl100k_base'' = Inr [''abcd'', ''cde'', ''e''] \<and>
   encode sample_encoding ''abcde'' = Inr [97, 98, 99, 100, 101] \<and>
   window [97, 98, 99, 100, 101] 4 2 1 = [99, 100, 101] \<and>
   decode sample_encoding [99, 100, 101] = ''cde'' \<and>
   int (length (window [97, 98, 99, 100, 101] 4 2 1)) \<noteq> 4"
proof -
  have "window [97, 98, 99, 100, 101] 4 2 1 = [99, 100, 101]" by code_simp
  moreover have "decode sample_encoding [99, 100, 101] = ''cde''" by code_simp
  ultimately show ?thesis using sample_chunks_abcde sample_encode_abcde by simp
qed

text \<open>
  C4. Under a valid configuration with \<open>overlap > 0\<close>, for consecutive chunks \<open>k\<close> and
  \<open>k + 1\<close> where the window of chunk \<open>k\<close> has \<open>window_size\<close> tokens, the last \<open>overlap\<close>
  tokens of that window are the first \<open>overlap\<close> tokens of the window of chunk \<open>k + 1\<close>,
  and there are \<open>overlap\<close> of them.
\<close>

theorem overlap_shared:
  assumes "0 < w" "0 < ov" "ov < w"
    and "tiktoken_get_encoding ev model = Inr enc" "encode enc doc = Inr toks"
    and "tokenize_and_chunk ev doc w ov model = Inr chunks"
    and "Suc k < length chunks"
    and "int (length (window toks w ov k)) = w"
  shows "drop (nat (w - ov)) (window toks w ov k) = take (nat ov) (window toks w ov (Suc k)) \<and>
         length (take (nat ov) (window toks w ov (Suc k))) = nat ov \<and>
         chunks ! k = decode enc (window toks w ov k) \<and>
         chunks ! Suc k = decode enc (window toks w ov (Suc k))"
proof -
  have ne: "w \<noteq> ov" and v: "0 \<le> ov" using assms by simp_all
  note n = chunks_nth [OF assms(4,5) ne assms(6)]
  define S where "S = nat (w - ov)"
  define W where "W = nat w"
  define V where "V = nat ov"
  have WSV: "W = S + V" "0 < S" "0 < V" using assms by (simp_all add: S_def W_def V_def)
  have wk: "window toks w ov k = take W (drop (k * S) toks)"
    and wk': "window toks w ov (Suc k) = take W (drop (k * S + S) toks)"
    using window_take_drop [OF assms(1) v assms(3)] by (simp_all add: S_def W_def add.commute)
  have full: "k * S + W \<le> length toks"
    using assms(8) assms(1) unfolding wk by (simp add: W_def) 
  have 1: "drop S (window toks w ov k) = take V (window toks w ov (Suc k))"
    unfolding wk wk' using WSV by (simp add: drop_take add.commute min_def)
  have 2: "length (take V (window toks w ov (Suc k))) = V"
    unfolding wk' using full WSV by simp
  have "k < length chunks" using assms(7) by simp
  then show ?thesis
    using 1 2 n(2) [of k] n(2) [OF assms(7)] by (simp add: S_def V_def)
qed

theorem overlap_shared_witness:
  "drop (nat (4 - 2)) (window [97, 98, 99, 100, 101] 4 2 0) =
     take (nat 2) (window [97, 98, 99, 100, 101] 4 2 (Suc 0)) \<and>
   take (nat 2) (window [97, 98, 99, 100, 101] 4 2 (Suc 0)) = [99, 100]"
proof -
  have f: "int (length (window [97, 98, 99, 100, 101] 4 2 0)) = 4" by code_simp
  have t: "take (nat 2) (window [97, 98, 99, 100, 101] 4 2 (Suc 0)) = [99, 100]" by code_simp
  show ?thesis
    using overlap_shared [of 4 2 sample_env "''cl100k_base''" sample_encoding "''abcde''"
        "[97, 98, 99, 100, 101]" "[''abcd'', ''cde'', ''e'']" 0,
        OF _ _ _ sample_get_encoding sample_encode_abcde sample_chunks_abcde _ f] t
    by simp
qed




text \<open>
  C9 (as the code has it). With \<open>overlap \<ge> window_size\<close> and a text that is encoded, the
  call ends: \<open>overlap = window_size\<close> raises the \<^verbatim>\<open>ValueError\<close> of \<^verbatim>\<open>range\<close> on a zero step, and
  \<open>overlap > window_size\<close> returns no chunk, the range of a negative step being empty.
  Nothing in the function checks the configuration.
\<close>

theorem degenerate_stride:
  assumes "tiktoken_get_encoding ev model = Inr enc" "encode enc doc = Inr toks" "w \<le> ov"
  shows "tokenize_and_chunk ev doc w ov model =
           (if ov = w then Inl (ValueError ''range() arg 3 must not be zero'') else Inr [])"
  using assms by (simp add: tokenize_and_chunk_def py_range_def range_len_def)

theorem degenerate_stride_witness:
  "tokenize_and_chunk sample_env ''abcde'' 4 4 ''cl100k_base'' =
     Inl (ValueError ''range() arg 3 must not be zero'') \<and>
   tokenize_and_chunk sample_env ''abcde'' 4 6 ''cl100k_base'' = Inr []"
  using degenerate_stride [OF sample_get_encoding sample_encode_abcde, of 4 4]
    degenerate_stride [OF sample_get_encoding sample_encode_abcde, of 4 6]
  by simp

text \<open>
  Neither a loop without end nor a reversed output: an error for a zero stride, no chunk
  for a negative one.
\<close>

theorem degenerate_stride_counterexample:
  "tokenize_and_chunk sample_env ''abc'' 2 2 ''cl100k_base'' =
     Inl (ValueError ''range() arg 3 must not be zero'') \<and>
   tokenize_and_chunk sample_env ''abc'' 2 5 ''cl100k_base'' = Inr [] \<and>
   tokenize_and_chunk sample_env ''abc'' 0 0 ''cl100k_base'' =
     Inl (ValueError ''range() arg 3 must not be zero'')"
proof -
  have "tokenize_and_chunk sample_env ''abc'' 2 2 ''cl100k_base'' =
     Inl (ValueError ''range() arg 3 must not be zero'')"
    by code_simp
  moreover have "tokenize_and_chunk sample_env ''abc'' 2 5 ''cl100k_base'' = Inr []"
    by code_simp
  moreover have "tokenize_and_chunk sample_env ''abc'' 0 0 ''cl100k_base'' =
     Inl (ValueError ''range() arg 3 must not be zero'')"
    by code_simp
  ultimately show ?thesis by simp
qed

section \<open>The batch serializer\<close>

text \<open>
  C6 (as the code has it). A call of \<^verbatim>\<open>jsonify\<close> that ends normally returns \<^verbatim>\<open>None\<close>. The
  total number of chunks over all documents is the length of the array written to the
  output file, and the function reports it only in the line it prints.
\<close>

theorem jsonify_returns_none:
  assumes "jsonify ev w paths cs ov fn = (w', Inr r)"
  shows "r = PyNone \<and>
         (\<exists>data. files w' (output_path_of fn) = Some (Complete data) \<and>
            length data = (\<Sum>p\<leftarrow>paths. length (chunks_of ev cs ov p)) \<and>
            stdout w' = stdout w @ [saved_message (output_path_of fn) (length data)])"
proof -
  from jsonify_success [OF assms] obtain data where
    l: "jsonify_loop ev paths cs ov [] = Inr data" and r: "r = PyNone" and
    w': "w' = w\<lparr>files := (files w)(output_path_of fn \<mapsto> Complete data),
                  stdout := stdout w @ [saved_message (output_path_of fn) (length data)]\<rparr>"
    by blast
  have "length data = (\<Sum>p\<leftarrow>paths. length (chunks_of ev cs ov p))"
    using jsonify_loop_success [OF l] by (simp add: length_concat comp_def)
  then show ?thesis using r w' by simp
qed

theorem jsonify_returns_none_witness:
  "snd (jsonify sample_env empty_world [''books/guide.pdf'', ''books/empty.pdf''] 4 1 ''out.json'') =
     Inr PyNone \<and>
   (\<exists>data. files (fst (jsonify sample_env empty_world [''books/guide.pdf'', ''books/empty.pdf'']
                          4 1 ''out.json'')) (output_path_of ''out.json'') = Some (Complete data) \<and>
      length data = 3)"
proof -
  let ?j = "jsonify sample_env empty_world [''books/guide.pdf'', ''books/empty.pdf''] 4 1 ''out.json''"
  have s: "snd ?j = Inr PyNone" by code_simp
  then have j: "?j = (fst ?j, Inr PyNone)" by (metis prod.collapse)
  have n: "(\<Sum>p\<leftarrow>[''books/guide.pdf'', ''books/empty.pdf'']. length (chunks_of sample_env 4 1 p)) = 3"
    by code_simp
  show ?thesis using jsonify_returns_none [OF j] s n by auto
qed

text \<open>
  A batch of a document of three chunks and a document of none writes three entries and
  returns \<^verbatim>\<open>None\<close>, not 3.
\<close>

theorem jsonify_returns_none_counterexample:
  "snd (jsonify sample_env empty_world [''books/guide.pdf'', ''books/empty.pdf''] 4 1 ''out.json'') =
     Inr PyNone \<and>
   files (fst (jsonify sample_env empty_world [''books/guide.pdf'', ''books/empty.pdf'']
                 4 1 ''out.json'')) (output_path_of ''out.json'') =
     Some (Complete [\<lparr>author = ''guide'', text' = ''abcd''\<rparr>,
                     \<lparr>author = ''guide'', text' = [CHR ''d'', CHR 0x0A, CHR ''e'', CHR ''f'']\<rparr>,
                     \<lparr>author = ''guide'', text' = ''f''\<rparr>]) \<and>
   snd (jsonify sample_env empty_world [''books/guide.pdf'', ''books/empty.pdf''] 4 1 ''out.json'') \<noteq>
     Inr (PyInt 3)"
proof -
  let ?j = "jsonify sample_env empty_world [''books/guide.pdf'', ''books/empty.pdf''] 4 1 ''out.json''"
  have "snd ?j = Inr PyNone" by code_simp
  moreover have "files (fst ?j) (output_path_of ''out.json'') =
     Some (Complete [\<lparr>author = ''guide'', text' = ''abcd''\<rparr>,
                     \<lparr>author = ''guide'', text' = [CHR ''d'', CHR 0x0A, CHR ''e'', CHR ''f'']\<rparr>,
                     \<lparr>author = ''guide'', text' = ''f''\<rparr>])"
    by code_simp
  ultimately show ?thesis by simp
qed

text \<open>
  C7 (the code at the inputs where it fails). Line 68 deletes every \<^verbatim>\<open>.pdf\<close> from the final
  segment of the path, which removes the extension of a name such as \<^verbatim>\<open>guide.pdf\<close>. A
  batch of the documents \<^verbatim>\<open>books/SCAN.PDF\<close> and \<^verbatim>\<open>books/my.pdf_notes.pdf\<close> is written with
  the labels \<^verbatim>\<open>SCAN.PDF\<close> and \<^verbatim>\<open>my_notes\<close>, where the final segments with their extensions
  removed are \<^verbatim>\<open>SCAN\<close> and \<^verbatim>\<open>my.pdf_notes\<close>.
\<close>

theorem author_label_divergence:
  "files (fst (jsonify sample_env empty_world [''books/SCAN.PDF'', ''books/my.pdf_notes.pdf'']
                 4 1 ''out.json'')) (output_path_of ''out.json'') =
     Some (Complete [\<lparr>author = ''SCAN.PDF'', text' = ''xy''\<rparr>,
                     \<lparr>author = ''my_notes'', text' = ''z''\<rparr>]) \<and>
   os_path_basename sample_env ''books/SCAN.PDF'' = ''SCAN.PDF'' \<and>
   os_path_basename sample_env ''books/my.pdf_notes.pdf'' = ''my.pdf_notes.pdf'' \<and>
   author_name sample_env ''books/SCAN.PDF'' = ''SCAN.PDF'' \<and>
   spec_label sample_env ''books/SCAN.PDF'' = ''SCAN'' \<and>
   author_name sample_env ''books/my.pdf_notes.pdf'' = ''my_notes'' \<and>
   spec_label sample_env ''books/my.pdf_notes.pdf'' = ''my.pdf_notes'' \<and>
   author_name sample_env ''books/guide.pdf'' = ''guide'' \<and>
   spec_label sample_env ''books/guide.pdf'' = ''guide''"
proof -
  have "files (fst (jsonify sample_env empty_world [''books/SCAN.PDF'', ''books/my.pdf_notes.pdf'']
                 4 1 ''out.json'')) (output_path_of ''out.json'') =
     Some (Complete [\<lparr>author = ''SCAN.PDF'', text' = ''xy''\<rparr>,
                     \<lparr>author = ''my_notes'', text' = ''z''\<rparr>])"
    by code_simp
  moreover have "os_path_basename sample_env ''books/SCAN.PDF'' = ''SCAN.PDF''" by code_simp
  moreover have "os_path_basename sample_env ''books/my.pdf_notes.pdf'' = ''my.pdf_notes.pdf''"
    by code_simp
  moreover have "author_name sample_env ''books/SCAN.PDF'' = ''SCAN.PDF''" by code_simp
  moreover have "spec_label sample_env ''books/SCAN.PDF'' = ''SCAN''" by code_simp
  moreover have "author_name sample_env ''books/my.pdf_notes.pdf'' = ''my_notes''" by code_simp
  moreover have "spec_label sample_env ''books/my.pdf_notes.pdf'' = ''my.pdf_notes''" by code_simp
  moreover have "author_name sample_env ''books/guide.pdf'' = ''guide''" by code_simp
  moreover have "spec_label sample_env ''books/guide.pdf'' = ''guide''" by code_simp
  ultimately show ?thesis by simp
qed

text \<open>
  C8. When the documents before \<open>p\<close> are read and chunked and the extraction or the
  chunking of \<open>p\<close> fails with \<open>e\<close>, the call of \<^verbatim>\<open>jsonify\<close> raises \<open>e\<close>, whatever documents
  follow, and leaves the world as it was: no file is written and nothing is printed.
\<close>

theorem first_error_aborts:
  assumes "\<forall>q\<in>set ps1. \<exists>chunks. document_chunks ev cs ov q = Inr chunks"
    and "extract_text_from_pdf ev p = Inl e \<or>
         (\<exists>full_text. extract_text_from_pdf ev p = Inr full_text \<and>
            tokenize_and_chunk ev full_text cs ov ''cl100k_base'' = Inl e)"
  shows "jsonify ev w (ps1 @ p # ps2) cs ov fn = (w, Inl e)"
proof -
  have "document_chunks ev cs ov p = Inl e"
    using assms(2) by (auto simp: document_chunks_def)
  then show ?thesis
    using jsonify_loop_first_error [OF assms(1)] by (simp add: jsonify_def)
qed

theorem first_error_aborts_witness:
  "jsonify sample_env empty_world [''books/guide.pdf'', ''books/missing.pdf'', ''books/empty.pdf'']
     4 1 ''out.json'' =
     (empty_world, Inl (RuntimeError ''Error reading PDF: No such file'')) \<and>
   jsonify sample_env empty_world [''books/guide.pdf'', ''books/empty.pdf''] 4 4 ''out.json'' =
     (empty_world, Inl (ValueError ''range() arg 3 must not be zero''))"
proof -
  have ok: "\<forall>q\<in>set [''books/guide.pdf'']. \<exists>chunks. document_chunks sample_env 4 1 q = Inr chunks"
    using sample_guide_chunks by simp
  have x: "extract_text_from_pdf sample_env ''books/missing.pdf'' =
             Inl (RuntimeError ''Error reading PDF: No such file'')"
    by code_simp
  have t: "extract_text_from_pdf sample_env ''books/guide.pdf'' =
             Inr [CHR ''a'', CHR ''b'', CHR ''c'', CHR ''d'', CHR 0x0A, CHR ''e'', CHR ''f'']"
    by code_simp
  have v: "tokenize_and_chunk sample_env
             [CHR ''a'', CHR ''b'', CHR ''c'', CHR ''d'', CHR 0x0A, CHR ''e'', CHR ''f'']
             4 4 ''cl100k_base'' = Inl (ValueError ''range() arg 3 must not be zero'')"
    by code_simp
  have 1: "jsonify sample_env empty_world
             ([''books/guide.pdf''] @ ''books/missing.pdf'' # [''books/empty.pdf'']) 4 1 ''out.json'' =
           (empty_world, Inl (RuntimeError ''Error reading PDF: No such file''))"
    using first_error_aborts [OF ok] x by blast
  have 2: "jsonify sample_env empty_world
             ([] @ ''books/guide.pdf'' # [''books/empty.pdf'']) 4 4 ''out.json'' =
           (empty_world, Inl (ValueError ''range() arg 3 must not be zero''))"
    using first_error_aborts [of "[]" sample_env 4 4 "''books/guide.pdf''"] t v by simp
  show ?thesis using 1 2 by simp
qed

text \<open>
  C10 (as the code has it). A call of \<^verbatim>\<open>jsonify\<close> changes no file but the one whose path is
  the fixed directory, a backslash and \<^verbatim>\<open>output_filename\<close>, and a call that ends normally
  has written that file. When \<^verbatim>\<open>output_filename\<close> has no separator in it, the directory of
  that path is the fixed directory.
\<close>

theorem output_path_fixed:
  "(\<forall>p. p \<noteq> output_dir @ [backslash] @ fn \<longrightarrow>
       files (fst (jsonify ev w paths cs ov fn)) p = files w p) \<and>
   (\<forall>r. snd (jsonify ev w paths cs ov fn) = Inr r \<longrightarrow>
       (\<exists>data. files (fst (jsonify ev w paths cs ov fn)) (output_dir @ [backslash] @ fn) =
          Some (Complete data))) \<and>
   ((\<forall>c\<in>set fn. \<not> is_separator c) \<longrightarrow>
       directory_of (output_dir @ [backslash] @ fn) = output_dir)"
proof -
  have 1: "files (fst (jsonify ev w paths cs ov fn)) p = files w p"
    if "p \<noteq> output_dir @ [backslash] @ fn" for p
    using that
    by (simp add: jsonify_def output_path_of_def Let_def split: sum.split option.split)
  have 2: "\<exists>data. files (fst (jsonify ev w paths cs ov fn)) (output_dir @ [backslash] @ fn) =
          Some (Complete data)" if "snd (jsonify ev w paths cs ov fn) = Inr r" for r
    using that
    by (auto simp: jsonify_def output_path_of_def Let_def split: sum.splits option.splits)
  show ?thesis using 1 2 directory_of_plain [of fn output_dir] by blast
qed

theorem output_path_fixed_witness:
  "files (fst (jsonify sample_env empty_world [''books/guide.pdf''] 4 1 ''out.json''))
     (output_dir @ [backslash] @ ''other.json'') = None \<and>
   (\<exists>data. files (fst (jsonify sample_env empty_world [''books/guide.pdf''] 4 1 ''out.json''))
      (output_dir @ [backslash] @ ''out.json'') = Some (Complete data)) \<and>
   directory_of (output_dir @ [backslash] @ ''out.json'') = output_dir"
proof -
  let ?j = "jsonify sample_env empty_world [''books/guide.pdf''] 4 1 ''out.json''"
  have s: "snd ?j = Inr PyNone" by code_simp
  have d: "output_dir @ [backslash] @ ''other.json'' \<noteq> output_dir @ [backslash] @ ''out.json''"
    by simp
  have f: "\<forall>c\<in>set ''out.json''. \<not> is_separator c"
    by (simp add: is_separator_def backslash_def)
  have e: "files empty_world (output_dir @ [backslash] @ ''other.json'') = None"
    by (simp add: empty_world_def)
  show ?thesis
    using output_path_fixed [of "''out.json''" sample_env empty_world "[''books/guide.pdf'']" 4 1]
      s d f e
    by simp
qed

text \<open>
  The path is built by concatenation: a file name with a separator in it selects
  another directory, below the fixed one or, with \<^verbatim>\<open>..\<close>, above it.
\<close>

theorem output_path_fixed_counterexample:
  "directory_of (output_path_of (''sub'' @ [backslash] @ ''out.json'')) =
     output_dir @ [backslash] @ ''sub'' \<and>
   directory_of (output_path_of (''sub'' @ [backslash] @ ''out.json'')) \<noteq> output_dir \<and>
   directory_of (output_path_of (''..'' @ [backslash] @ ''out.json'')) =
     output_dir @ [backslash] @ ''..'' \<and>
   files (fst (jsonify sample_env empty_world [''books/guide.pdf''] 4 1
                 (''sub'' @ [backslash] @ ''out.json'')))
     (output_dir @ [backslash] @ ''sub'' @ [backslash] @ ''out.json'') \<noteq> None"
proof -
  have "directory_of (output_path_of (''sub'' @ [backslash] @ ''out.json'')) =
     output_dir @ [backslash] @ ''sub''"
    by code_simp
  moreover have "directory_of (output_path_of (''..'' @ [backslash] @ ''out.json'')) =
     output_dir @ [backslash] @ ''..''"
    by code_simp
  moreover have "files (fst (jsonify sample_env empty_world [''books/guide.pdf''] 4 1
                 (''sub'' @ [backslash] @ ''out.json'')))
     (output_dir @ [backslash] @ ''sub'' @ [backslash] @ ''out.json'') \<noteq> None"
    by code_simp
  ultimately show ?thesis by simp
qed

end
